theory Spec2Isabelle
  imports Complex_Main
begin

section \<open>Data model (src/frontend/src/App.tsx, lines 6-21)\<close>

text \<open>
  A JavaScript number that was parsed from JSON is a finite IEEE double (JSON has no
  literal for NaN), hence a rational, and the strict comparison \<open>!==\<close> on two such
  values is plain inequality. The component does no arithmetic on the numbers it
  receives, so they are modelled by their rational value.
\<close>

type_synonym number = rat

record Location =
  updated :: string
  longitude :: number
  latitude :: number
  position_description :: string

text \<open>The object under the member \<open>data\<close> of the interface \<open>VehicleData\<close>.\<close>

record Status =
  event_ts :: string
  bearing :: number
  speed :: number
  ignition :: bool
  odometer :: number
  altitude :: number
  location :: Location

record VehicleData =
  data :: Status

section \<open>The map library objects the component drives\<close>

record raster_source =
  source_type :: string
  tiles :: "string list"
  tileSize :: nat
  attribution :: string
  source_maxzoom :: nat

record layer =
  layer_id :: string
  layer_type :: string
  layer_source :: string
  layer_minzoom :: nat
  layer_maxzoom :: nat

record map_style =
  version :: nat
  sources :: "(string \<times> raster_source) list"
  layers :: "layer list"

record map_options =
  style :: map_style
  center :: "number \<times> number"
  zoom :: number
  maxZoom :: number
  minZoom :: number

text \<open>
  A \<open>maplibregl.Map\<close>: the options it was built with, the viewport (centre and zoom),
  the controls added with their anchors, whether a listener for \<open>load\<close> is
  registered, whether \<open>load\<close> has fired, and whether \<open>remove()\<close> was called.
\<close>

record map_surface =
  options :: map_options
  view_center :: "number \<times> number"
  view_zoom :: number
  controls :: "(string \<times> string) list"
  load_listener :: bool
  loaded :: bool
  removed :: bool

text \<open>
  The popup's HTML is a fixed template around three interpolated values (lines 141-150);
  the popup is modelled by its offset and these three values.
\<close>

record popup =
  popup_offset :: nat
  popup_speed :: number
  popup_ignition :: bool
  popup_location :: string

text \<open>
  A \<open>maplibregl.Marker\<close>: the background colour of its element (the only interpolated
  part of the element's HTML, lines 133-138), its coordinates, its popup, and whether it
  was added to the map.
\<close>

record marker =
  element_color :: string
  lnglat :: "number \<times> number"
  marker_popup :: "popup option"
  on_map :: bool

record lng_lat =
  lng :: number
  lat :: number

section \<open>Component state\<close>

datatype lifecycle = Fresh | Live | Gone

text \<open>Which call site invoked \<open>fetchVehicleData\<close>: line 98 (load handler) or line 171 (interval).\<close>

datatype origin = Manual | Poll

text \<open>The library and timer calls the component makes, in the order it makes them.\<close>

datatype call =
    New_map map_options
  | Add_control string string
  | On_load
  | Map_remove
  | New_marker string
  | Set_lng_lat number number
  | Set_popup popup
  | Add_to
  | Fly_to number number number nat
  | Set_interval nat
  | Clear_interval

text \<open>
  The refs and state hooks of \<open>App\<close> (lines 26-32), the browser's interval timer as
  (period, next due time), the clock in milliseconds, the number of fetches in flight,
  and two logs: the calls made so far and the invocations of \<open>fetchVehicleData\<close> with
  their time and call site.
\<close>

record app =
  phase :: lifecycle
  mapContainer :: bool
  map_ref :: "map_surface option"
  marker_ref :: "marker option"
  vehicleData :: "VehicleData option"
  loading :: bool
  error :: "string option"
  lastPosition :: "lng_lat option"
  interval :: "(nat \<times> nat) option"
  clock :: nat
  pending :: nat
  calls :: "call list"
  fetches :: "(nat \<times> origin) list"

definition init :: app where
  "init = \<lparr> phase = Fresh, mapContainer = False, map_ref = None, marker_ref = None,
            vehicleData = None, loading = True, error = None, lastPosition = None,
            interval = None, clock = 0, pending = 0, calls = [], fetches = [] \<rparr>"

section \<open>Status fetcher (lines 35-58)\<close>

text \<open>A value caught by \<open>catch (err)\<close>: an \<open>Error\<close> with name and message, or anything else.\<close>

datatype thrown = Error_object string string | Not_an_error

text \<open>
  What the network does with one request. \<open>Headers t ok body\<close>: the response arrives
  \<open>t\<close> ms after the request, with \<open>response.ok = ok\<close>, and \<open>response.json()\<close>
  settles as \<open>body\<close> (rejected with a thrown value, or the parsed object).
  \<open>Network_failure t e\<close>: \<open>fetch\<close> rejects with \<open>e\<close> after \<open>t\<close> ms.
  \<open>No_response\<close>: nothing ever arrives.
\<close>

datatype network =
    Headers nat bool "thrown + VehicleData"
  | Network_failure nat thrown
  | No_response

text \<open>
  The rejection of a fetch whose signal was aborted: a \<open>DOMException\<close> named
  \<open>AbortError\<close>. Its message is the browser's; the component never reads it.
\<close>

definition abort_error :: thrown where
  "abort_error = Error_object ''AbortError'' ''signal is aborted without reason''"

text \<open>
  Lines 37-49, the body of \<open>try\<close>: the timer set at line 38 aborts the request 5000 ms
  after it was sent unless the response arrived first (line 43 clears the timer).
\<close>

fun try_block :: "network \<Rightarrow> thrown + VehicleData" where
  "try_block (Headers t ok body) =
     (if 5000 \<le> t then Inl abort_error
      else if \<not> ok then Inl (Error_object ''Error'' ''Failed to fetch vehicle data'')
      else body)"
| "try_block (Network_failure t e) = (if 5000 \<le> t then Inl abort_error else Inl e)"
| "try_block No_response = Inl abort_error"

text \<open>Lines 50-57, the \<open>catch\<close> clause: the message passed to \<open>setError\<close>.\<close>

fun catch_message :: "thrown \<Rightarrow> string" where
  "catch_message (Error_object nm msg) =
     (if nm = ''AbortError'' then ''Request timeout - API is slow'' else msg)"
| "catch_message Not_an_error = ''Unknown error''"

definition fetchVehicleData :: "network \<Rightarrow> app \<Rightarrow> app \<times> VehicleData option" where
  "fetchVehicleData net s =
     (case try_block net of
        Inr d \<Rightarrow> (s\<lparr>vehicleData := Some d, error := None\<rparr>, Some d)
      | Inl err \<Rightarrow> (s\<lparr>error := Some (catch_message err)\<rparr>, None))"

text \<open>The failure kinds of the specification's taxonomy; \<open>None\<close> is success.\<close>

datatype failure = Timeout | Http_failure | Network_error | Parse_error

fun failure_kind :: "network \<Rightarrow> failure option" where
  "failure_kind (Headers t ok body) =
     (if 5000 \<le> t then Some Timeout
      else if \<not> ok then Some Http_failure
      else (case body of Inl _ \<Rightarrow> Some Parse_error | Inr _ \<Rightarrow> None))"
| "failure_kind (Network_failure t e) = (if 5000 \<le> t then Some Timeout else Some Network_error)"
| "failure_kind No_response = Some Timeout"

section \<open>Map surface (lines 61-104)\<close>

text \<open>The options passed to \<open>new maplibregl.Map\<close> (lines 64-91), without the container.\<close>

definition osm_tiles :: raster_source where
  "osm_tiles = \<lparr> source_type = ''raster'',
                 tiles = [''https://tile.openstreetmap.org/{z}/{x}/{y}.png''],
                 tileSize = 256,
                 attribution = CHR 0xA9 # '' OpenStreetMap contributors'',
                 source_maxzoom = 19 \<rparr>"

definition map_config :: map_options where
  "map_config =
     \<lparr> style = \<lparr> version = 8,
                 sources = [(''osm-tiles'', osm_tiles)],
                 layers = [\<lparr> layer_id = ''osm-tiles'', layer_type = ''raster'',
                            layer_source = ''osm-tiles'', layer_minzoom = 0,
                            layer_maxzoom = 19 \<rparr>] \<rparr>,
       center = (1850841 / 100000, - (33827274 / 1000000)),
       zoom = 12,
       maxZoom = 19,
       minZoom = 2 \<rparr>"

text \<open>
  The effect of lines 61-104. It returns at once when the container ref is empty or a map
  is already held; otherwise it builds the map, adds the navigation control at
  \<open>bottom-right\<close> and registers the \<open>load\<close> listener.
\<close>

definition init_map_effect :: "app \<Rightarrow> app" where
  "init_map_effect s =
     (if \<not> mapContainer s \<or> map_ref s \<noteq> None then s
      else s\<lparr> map_ref := Some \<lparr> options = map_config,
                                 view_center = center map_config,
                                 view_zoom = zoom map_config,
                                 controls = [(''NavigationControl'', ''bottom-right'')],
                                 load_listener = True,
                                 loaded = False,
                                 removed = False \<rparr>,
              calls := calls s @ [New_map map_config,
                                  Add_control ''NavigationControl'' ''bottom-right'',
                                  On_load] \<rparr>)"

text \<open>The cleanup of that effect (lines 101-103): \<open>map.current?.remove()\<close>.\<close>

definition init_map_cleanup :: "app \<Rightarrow> app" where
  "init_map_cleanup s =
     (case map_ref s of
        None \<Rightarrow> s
      | Some mp \<Rightarrow> s\<lparr> map_ref := Some (mp\<lparr>removed := True\<rparr>),
                      calls := calls s @ [Map_remove] \<rparr>)"

section \<open>Marker presenter (lines 107-166)\<close>

definition positionChanged :: "lng_lat option \<Rightarrow> number \<Rightarrow> number \<Rightarrow> bool" where
  "positionChanged lp lo la =
     (case lp of None \<Rightarrow> True | Some p \<Rightarrow> lng p \<noteq> lo \<or> lat p \<noteq> la)"

definition ignition_color :: "bool \<Rightarrow> string" where
  "ignition_color ign = (if ign then ''#10B981'' else ''#EF4444'')"

text \<open>
  The effect with dependency \<open>vehicleData\<close>. With a marker it moves the marker when the
  position changed and does nothing otherwise; without one it builds the element and the
  popup, creates the marker at the coordinates, adds it to the map, records the position
  and flies the viewport to it (zoom 14, 2000 ms).
\<close>

definition marker_effect :: "app \<Rightarrow> app" where
  "marker_effect s =
     (case map_ref s of
        None \<Rightarrow> s
      | Some mp \<Rightarrow>
         (case vehicleData s of
            None \<Rightarrow> s
          | Some vd \<Rightarrow>
             (let lo = longitude (location (data vd));
                  la = latitude (location (data vd));
                  desc = position_description (location (data vd));
                  spd = speed (data vd);
                  ign = ignition (data vd)
              in (case marker_ref s of
                    Some mk \<Rightarrow>
                      (if positionChanged (lastPosition s) lo la
                       then s\<lparr> marker_ref := Some (mk\<lparr>lnglat := (lo, la)\<rparr>),
                               lastPosition := Some \<lparr> lng = lo, lat = la \<rparr>,
                               calls := calls s @ [Set_lng_lat lo la] \<rparr>
                       else s)
                  | None \<Rightarrow>
                      (let pop = \<lparr> popup_offset = 25, popup_speed = spd,
                                   popup_ignition = ign, popup_location = desc \<rparr>
                       in s\<lparr> marker_ref := Some \<lparr> element_color = ignition_color ign,
                                                   lnglat = (lo, la),
                                                   marker_popup = Some pop,
                                                   on_map = True \<rparr>,
                              lastPosition := Some \<lparr> lng = lo, lat = la \<rparr>,
                              map_ref := Some (mp\<lparr>view_center := (lo, la), view_zoom := 14\<rparr>),
                              calls := calls s @ [New_marker (ignition_color ign),
                                                  Set_lng_lat lo la,
                                                  Set_popup pop,
                                                  Add_to,
                                                  Fly_to lo la 14 2000] \<rparr>)))))"

section \<open>Poll scheduler (lines 169-175)\<close>

text \<open>\<open>setInterval(..., 15000)\<close>: the first firing is due one period after the call.\<close>

definition poll_effect :: "app \<Rightarrow> app" where
  "poll_effect s = s\<lparr> interval := Some (15000, clock s + 15000),
                      calls := calls s @ [Set_interval 15000] \<rparr>"

definition poll_cleanup :: "app \<Rightarrow> app" where
  "poll_cleanup s = s\<lparr> interval := None, calls := calls s @ [Clear_interval] \<rparr>"

section \<open>View controller: the callbacks of the component\<close>

text \<open>
  An invocation of \<open>fetchVehicleData\<close> sends the request and suspends at \<open>await\<close>; the
  rest of the function runs when the request settles.
\<close>

definition begin_fetch :: "origin \<Rightarrow> app \<Rightarrow> app" where
  "begin_fetch og s = s\<lparr> pending := pending s + 1, fetches := fetches s @ [(clock s, og)] \<rparr>"

text \<open>
  First mount: the container ref is attached, then the three effects run in the order
  they are declared.
\<close>

definition mount :: "app \<Rightarrow> app" where
  "mount s = poll_effect (marker_effect (init_map_effect (s\<lparr>phase := Live, mapContainer := True\<rparr>)))"

text \<open>Teardown: the cleanups of the map effect and of the poll effect.\<close>

definition unmount :: "app \<Rightarrow> app" where
  "unmount s = poll_cleanup (init_map_cleanup (s\<lparr>phase := Gone\<rparr>))"

text \<open>The \<open>load\<close> listener (lines 96-99).\<close>

definition on_load :: "app \<Rightarrow> app" where
  "on_load s = begin_fetch Manual (s\<lparr>loading := False\<rparr>)"

text \<open>The interval callback (lines 170-172).\<close>

definition on_interval :: "app \<Rightarrow> app" where
  "on_interval s = begin_fetch Poll s"

text \<open>
  A request settles: the rest of \<open>fetchVehicleData\<close> runs, and when it stored a new
  object in \<open>vehicleData\<close> the component renders again and the marker effect runs.
  A failure changes only \<open>error\<close>, which is no dependency of any effect.
\<close>

definition settle :: "network \<Rightarrow> app \<Rightarrow> app" where
  "settle net s =
     (case fetchVehicleData net s of
        (s', Some d) \<Rightarrow> marker_effect s'
      | (s', None) \<Rightarrow> s')"

section \<open>Runs of the component\<close>

datatype event = Mount | Map_load | Tick | Settle network | Unmount

text \<open>
  One callback of the event loop, at time \<open>t\<close> (ms). A time in the past is refused, and
  so is a time after the interval's due time (the timer fires when it is due). A
  component is mounted once; \<open>load\<close> fires once, on a live map with a listener; the
  interval fires at its due time and is due again one period later; a request settles
  only when one is in flight, and its state updates are dropped once the component is
  unmounted. The run does not tie the time at which a request settles to its latency:
  every order of callbacks is allowed.
\<close>

definition admissible :: "app \<Rightarrow> nat \<Rightarrow> bool" where
  "admissible s t \<longleftrightarrow>
     clock s \<le> t \<and> (case interval s of None \<Rightarrow> True | Some (p, due) \<Rightarrow> t \<le> due)"

definition step :: "app \<Rightarrow> nat \<times> event \<Rightarrow> app option" where
  "step s te =
     (let t = fst te; s0 = s\<lparr>clock := t\<rparr> in
      if \<not> admissible s t then None
      else
        (case snd te of
           Mount \<Rightarrow> if phase s = Fresh then Some (mount s0) else None
         | Map_load \<Rightarrow>
             (case map_ref s of
                None \<Rightarrow> None
              | Some mp \<Rightarrow>
                  if phase s = Live \<and> load_listener mp \<and> \<not> loaded mp
                  then Some (on_load (s0\<lparr>map_ref := Some (mp\<lparr>loaded := True\<rparr>)\<rparr>))
                  else None)
         | Tick \<Rightarrow>
             (case interval s of
                None \<Rightarrow> None
              | Some (p, due) \<Rightarrow>
                  if due = t then Some (on_interval (s0\<lparr>interval := Some (p, t + p)\<rparr>))
                  else None)
         | Settle net \<Rightarrow>
             if pending s = 0 then None
             else if phase s = Live then Some (settle net (s0\<lparr>pending := pending s - 1\<rparr>))
             else Some (s0\<lparr>pending := pending s - 1\<rparr>)
         | Unmount \<Rightarrow> if phase s = Live then Some (unmount s0) else None))"

fun run :: "app \<Rightarrow> (nat \<times> event) list \<Rightarrow> app option" where
  "run s [] = Some s"
| "run s (e # es) = (case step s e of None \<Rightarrow> None | Some s' \<Rightarrow> run s' es)"

section \<open>The response body as parsed JSON\<close>

datatype json =
    JNull
  | JBoolean bool
  | JNumber number
  | JString string
  | JArray "json list"
  | JObject "(string \<times> json) list"

text \<open>
  Reading a member of a parsed value; \<open>None\<close> is \<open>undefined\<close>. \<open>JSON.parse\<close> keeps the
  last of several members with one key. Used with the member names of the interface
  only, none of which is a built-in property of an array or a primitive.
\<close>

fun member :: "json \<Rightarrow> string \<Rightarrow> json option" where
  "member (JObject kvs) k = map_of (rev kvs) k"
| "member _ k = None"

fun as_string :: "json option \<Rightarrow> string option" where
  "as_string (Some (JString x)) = Some x"
| "as_string _ = None"

fun as_number :: "json option \<Rightarrow> number option" where
  "as_number (Some (JNumber x)) = Some x"
| "as_number _ = None"

fun as_boolean :: "json option \<Rightarrow> bool option" where
  "as_boolean (Some (JBoolean x)) = Some x"
| "as_boolean _ = None"

text \<open>
  The interface \<open>VehicleData\<close> (lines 6-21) read as a decoder: the typed value a parsed
  body stands for, when it has the members the interface declares, with their types.
\<close>

definition as_Location :: "json option \<Rightarrow> Location option" where
  "as_Location j =
     (case j of
        None \<Rightarrow> None
      | Some l \<Rightarrow>
         (case (as_string (member l ''updated''), as_number (member l ''longitude''),
                as_number (member l ''latitude''), as_string (member l ''position_description'')) of
            (Some u, Some lo, Some la, Some pd) \<Rightarrow>
              Some \<lparr> updated = u, longitude = lo, latitude = la, position_description = pd \<rparr>
          | _ \<Rightarrow> None))"

definition as_Status :: "json option \<Rightarrow> Status option" where
  "as_Status j =
     (case j of
        None \<Rightarrow> None
      | Some d \<Rightarrow>
         (case (as_string (member d ''event_ts''), as_number (member d ''bearing''),
                as_number (member d ''speed''), as_boolean (member d ''ignition''),
                as_number (member d ''odometer''), as_number (member d ''altitude''),
                as_Location (member d ''location'')) of
            (Some ts, Some b, Some sp, Some ig, Some od, Some al, Some loc) \<Rightarrow>
              Some \<lparr> event_ts = ts, bearing = b, speed = sp, ignition = ig, odometer = od,
                     altitude = al, location = loc \<rparr>
          | _ \<Rightarrow> None))"

definition as_VehicleData :: "json \<Rightarrow> VehicleData option" where
  "as_VehicleData j =
     (case as_Status (member j ''data'') of
        None \<Rightarrow> None
      | Some st \<Rightarrow> Some \<lparr> data = st \<rparr>)"

text \<open>
  Lines 110-111 on the parsed value itself: reading a member of \<open>undefined\<close> or of
  \<open>null\<close> throws a \<open>TypeError\<close>; reading a missing member gives \<open>undefined\<close>.
\<close>

datatype js_error = TypeError

fun read_member :: "json option \<Rightarrow> string \<Rightarrow> js_error + json option" where
  "read_member None k = Inl TypeError"
| "read_member (Some JNull) k = Inl TypeError"
| "read_member (Some j) k = Inr (member j k)"

record marker_fields =
  f_longitude :: "json option"
  f_latitude :: "json option"
  f_position_description :: "json option"
  f_speed :: "json option"
  f_ignition :: "json option"
  f_odometer :: "json option"

definition destructure :: "json \<Rightarrow> js_error + marker_fields" where
  "destructure vd =
     (case read_member (Some vd) ''data'' of
        Inl e \<Rightarrow> Inl e
      | Inr d \<Rightarrow>
         (case read_member d ''location'' of
            Inl e \<Rightarrow> Inl e
          | Inr l \<Rightarrow>
             (case (read_member l ''longitude'', read_member l ''latitude'',
                    read_member l ''position_description'') of
                (Inr lo, Inr la, Inr pd) \<Rightarrow>
                  (case (read_member d ''speed'', read_member d ''ignition'',
                         read_member d ''odometer'') of
                     (Inr sp, Inr ig, Inr od) \<Rightarrow>
                       Inr \<lparr> f_longitude = lo, f_latitude = la, f_position_description = pd,
                             f_speed = sp, f_ignition = ig, f_odometer = od \<rparr>
                   | _ \<Rightarrow> Inl TypeError)
              | _ \<Rightarrow> Inl TypeError)))"

text \<open>
  The shape of section 3 of the specification, in its words: an object with the members
  \<open>event_ts\<close> (a timestamp, carried as a string), \<open>bearing\<close>, \<open>speed\<close>, \<open>ignition\<close>
  (a boolean), \<open>odometer\<close>, \<open>altitude\<close> and a nested object \<open>location\<close> with
  \<open>updated\<close>, \<open>longitude\<close>, \<open>latitude\<close> and \<open>position_description\<close> (a string).
\<close>

definition spec_location_shape :: "json \<Rightarrow> bool" where
  "spec_location_shape l \<longleftrightarrow>
     as_string (member l ''updated'') \<noteq> None \<and>
     as_number (member l ''longitude'') \<noteq> None \<and>
     as_number (member l ''latitude'') \<noteq> None \<and>
     as_string (member l ''position_description'') \<noteq> None"

definition spec_VehicleStatus_shape :: "json \<Rightarrow> bool" where
  "spec_VehicleStatus_shape j \<longleftrightarrow>
     as_string (member j ''event_ts'') \<noteq> None \<and>
     as_number (member j ''bearing'') \<noteq> None \<and>
     as_number (member j ''speed'') \<noteq> None \<and>
     as_boolean (member j ''ignition'') \<noteq> None \<and>
     as_number (member j ''odometer'') \<noteq> None \<and>
     as_number (member j ''altitude'') \<noteq> None \<and>
     (case member j ''location'' of None \<Rightarrow> False | Some l \<Rightarrow> spec_location_shape l)"

section \<open>Observations on runs\<close>

text \<open>
  Observers of the call log: the viewport animations and the map constructions.
\<close>

fun is_fly :: "call \<Rightarrow> bool" where
  "is_fly (Fly_to lo la z d) = True"
| "is_fly _ = False"

fun is_new_map :: "call \<Rightarrow> bool" where
  "is_new_map (New_map opts) = True"
| "is_new_map _ = False"

text \<open>
  The coordinates of a marker, in the form \<open>lastPosition\<close> holds them.
\<close>

definition position_of :: "marker \<Rightarrow> lng_lat" where
  "position_of m = \<lparr> lng = fst (lnglat m), lat = snd (lnglat m) \<rparr>"

text \<open>
  The successful fetches of a run that reach the view: the requests that settle with a
  parsed object before the view is torn down.
\<close>

fun is_success :: "nat \<times> event \<Rightarrow> bool" where
  "is_success (t, Settle net) = (failure_kind net = None)"
| "is_success (t, ev) = False"

definition applied_successes :: "(nat \<times> event) list \<Rightarrow> nat" where
  "applied_successes evs = length (filter is_success (takeWhile (\<lambda>te. snd te \<noteq> Unmount) evs))"

text \<open>The invocations of \<open>fetchVehicleData\<close> a run makes, when the run is possible.\<close>

definition fetch_log :: "(nat \<times> event) list \<Rightarrow> (nat \<times> origin) list option" where
  "fetch_log evs = map_option fetches (run init evs)"

text \<open>
  What a run leaves of the view: the \<open>loading\<close> flag, whether the map has fired
  \<open>load\<close>, whether a marker exists, and the number of viewport animations.
\<close>

definition view_summary :: "(nat \<times> event) list \<Rightarrow> (bool \<times> bool option \<times> bool \<times> nat) option" where
  "view_summary evs =
     map_option (\<lambda>s. (loading s, map_option loaded (map_ref s), marker_ref s \<noteq> None,
                       length (filter is_fly (calls s))))
       (run init evs)"

text \<open>
  Polling starts only after the manual fetch: no invocation from the interval comes before
  the invocation from the \<open>load\<close> listener, that is, the first invocation in the log is
  not a poll.
\<close>

fun polls_after_manual :: "(nat \<times> origin) list \<Rightarrow> bool" where
  "polls_after_manual [] = True"
| "polls_after_manual ((t, Manual) # fs) = True"
| "polls_after_manual ((t, Poll) # fs) = False"

section \<open>Invariants\<close>

text \<open>
  What holds of the view in every state a run reaches. Before the mount nothing exists.
  From the mount on there is one map, built once with \<open>map_config\<close> and carrying the
  navigation control. A marker exists exactly when a snapshot is held; it is on the map,
  \<open>lastPosition\<close> is its position, and the viewport animation ran once, when it was
  created.
\<close>

definition view_inv :: "app \<Rightarrow> bool" where
  "view_inv s \<longleftrightarrow>
     (phase s = Fresh \<longrightarrow> map_ref s = None \<and> vehicleData s = None \<and> pending s = 0 \<and>
                           interval s = None \<and> calls s = []) \<and>
     (phase s \<noteq> Fresh \<longrightarrow> map_ref s \<noteq> None \<and> mapContainer s \<and>
                           filter is_new_map (calls s) = [New_map map_config] \<and>
                           map_option options (map_ref s) = Some map_config \<and>
                           map_option controls (map_ref s)
                             = Some [(''NavigationControl'', ''bottom-right'')]) \<and>
     (case marker_ref s of None \<Rightarrow> True | Some m \<Rightarrow> on_map m) \<and>
     (marker_ref s = None \<longleftrightarrow> vehicleData s = None) \<and>
     lastPosition s = map_option position_of (marker_ref s) \<and>
     length (filter is_fly (calls s)) = (if marker_ref s = None then 0 else 1)"

text \<open>
  A marker is held that has the popup, the colour and the map attachment of \<open>m\<close>.
\<close>

definition same_marker :: "marker \<Rightarrow> app \<Rightarrow> bool" where
  "same_marker m s \<longleftrightarrow>
     (case marker_ref s of
        None \<Rightarrow> False
      | Some m' \<Rightarrow> on_map m' = on_map m \<and> marker_popup m' = marker_popup m \<and>
                   element_color m' = element_color m)"

section \<open>Concrete values used to evaluate the model\<close>

text \<open>
  The first fix of the example scenario of the specification (section 8): engine off, at
  (18.5, -33.9).
\<close>

definition example_data :: VehicleData where
  "example_data =
     \<lparr> data = \<lparr> event_ts = ''2024-01-01T10:00:00Z'', bearing = 90, speed = 0,
                ignition = False, odometer = 12000, altitude = 15,
                location = \<lparr> updated = ''2024-01-01T10:00:00Z'', longitude = 37 / 2,
                             latitude = - (339 / 10), position_description = ''Home'' \<rparr> \<rparr> \<rparr>"

text \<open>The second fix of that scenario: the same position, with the ignition on.\<close>

definition engine_on_data :: VehicleData where
  "engine_on_data =
     \<lparr> data = \<lparr> event_ts = ''2024-01-01T10:00:15Z'', bearing = 90, speed = 0,
                ignition = True, odometer = 12000, altitude = 15,
                location = \<lparr> updated = ''2024-01-01T10:00:15Z'', longitude = 37 / 2,
                             latitude = - (339 / 10), position_description = ''Home'' \<rparr> \<rparr> \<rparr>"

text \<open>The fourth fix of that scenario, at a new position.\<close>

definition moved_data :: VehicleData where
  "moved_data =
     \<lparr> data = \<lparr> event_ts = ''2024-01-01T10:00:45Z'', bearing = 45, speed = 32,
                ignition = True, odometer = 12001, altitude = 17,
                location = \<lparr> updated = ''2024-01-01T10:00:45Z'', longitude = 186 / 10,
                             latitude = - (338 / 10), position_description = ''Main Road'' \<rparr> \<rparr> \<rparr>"

definition status_json :: json where
  "status_json =
     JObject [(''event_ts'', JString ''2024-01-01T10:00:00Z''), (''bearing'', JNumber 90),
              (''speed'', JNumber 0), (''ignition'', JBoolean False),
              (''odometer'', JNumber 12000), (''altitude'', JNumber 15),
              (''location'',
                 JObject [(''updated'', JString ''2024-01-01T10:00:00Z''),
                          (''longitude'', JNumber (37 / 2)),
                          (''latitude'', JNumber (- (339 / 10))),
                          (''position_description'', JString ''Home'')])]"

definition body_json :: json where
  "body_json = JObject [(''data'', status_json)]"

text \<open>
  The scenario as a run: mount, the map is ready after 0.8 s, the first fetch succeeds, the
  second (at 15 s) reports the same position, the third (at 30 s) gets no answer and is
  aborted, the fourth (at 45 s) reports a new position; the view is torn down after 61 s
  while the fifth fetch is in flight.
\<close>

definition first_fix_run :: "(nat \<times> event) list" where
  "first_fix_run =
     [(0, Mount),
      (800, Map_load),
      (950, Settle (Headers 150 True (Inr example_data))),
      (15000, Tick)]"

definition same_place_event :: "nat \<times> event" where
  "same_place_event = (15120, Settle (Headers 120 True (Inr engine_on_data)))"

definition timeout_run :: "(nat \<times> event) list" where
  "timeout_run = [(30000, Tick), (35000, Settle No_response), (45000, Tick)]"

definition moved_event :: "nat \<times> event" where
  "moved_event = (45100, Settle (Headers 100 True (Inr moved_data)))"

definition teardown_run :: "(nat \<times> event) list" where
  "teardown_run = [(60000, Tick), (61000, Unmount), (61050, Settle (Headers 50 True (Inr example_data)))]"

definition whole_run :: "(nat \<times> event) list" where
  "whole_run = first_fix_run @ [same_place_event] @ timeout_run @ [moved_event] @ teardown_run"

text \<open>
  A slow map: the view is mounted at 0, the interval fires at 15 s, and the map is ready
  only at 16.2 s. In the second run the poll of 15 s is answered at 15.2 s.
\<close>

definition slow_map_run :: "(nat \<times> event) list" where
  "slow_map_run = [(0, Mount), (15000, Tick), (16200, Map_load)]"

definition early_poll_run :: "(nat \<times> event) list" where
  "early_poll_run =
     [(0, Mount), (15000, Tick), (15200, Settle (Headers 200 True (Inr example_data)))]"

section \<open>Verified properties\<close>

subsection \<open>Status fetcher\<close>

lemma failure_kind_None: "failure_kind net = None \<longleftrightarrow> (\<exists>d. try_block net = Inr d)"
  by (cases net) (auto simp: abort_error_def split: sum.splits)






subsection \<open>The response body\<close>

lemma as_Location_shape: "as_Location (Some l) \<noteq> None \<longleftrightarrow> spec_location_shape l"
  by (auto simp: as_Location_def spec_location_shape_def split: option.splits)

lemma as_Status_shape: "as_Status (Some d) \<noteq> None \<longleftrightarrow> spec_VehicleStatus_shape d"
proof -
  have "as_Location (member d ''location'') \<noteq> None \<longleftrightarrow>
        (case member d ''location'' of None \<Rightarrow> False | Some l \<Rightarrow> spec_location_shape l)"
    by (cases "member d ''location''")
       (simp_all add: as_Location_shape [symmetric], simp add: as_Location_def)
  then show ?thesis
    by (auto simp: as_Status_def spec_VehicleStatus_shape_def split: option.splits)
qed

text \<open>
  C4, as stated, fails: the body the frontend expects is not an object with \<open>event_ts\<close>,
  \<open>bearing\<close>, ... at the top level. A body of the interface's shape has the single
  member \<open>data\<close> at the top level and so has not the shape of section 3, and a body of
  that shape is no \<open>VehicleData\<close>: reading \<open>vehicleData.data.location\<close> (line 110) on it
  throws.
\<close>

theorem body_is_wrapped_status:
  "as_VehicleData body_json = Some example_data \<and> \<not> spec_VehicleStatus_shape body_json \<and>
   spec_VehicleStatus_shape status_json \<and> as_VehicleData status_json = None \<and>
   destructure status_json = Inl TypeError"
  by (simp add: as_VehicleData_def as_Status_def as_Location_def body_json_def status_json_def
        example_data_def spec_VehicleStatus_shape_def spec_location_shape_def destructure_def)

text \<open>
  C4, amended. The body the frontend parses is an object whose member \<open>data\<close> has the
  VehicleStatus shape of section 3 (\<open>event_ts\<close>, \<open>bearing\<close>, \<open>speed\<close>, \<open>ignition\<close>,
  \<open>odometer\<close>, \<open>altitude\<close> and a nested \<open>location\<close> with \<open>updated\<close>, \<open>longitude\<close>,
  \<open>latitude\<close>, \<open>position_description\<close>); on such a body the reads of lines 110-111
  succeed and give the values of these members.
\<close>

theorem VehicleData_shape:
  "(as_VehicleData j \<noteq> None \<longleftrightarrow>
      (case member j ''data'' of None \<Rightarrow> False | Some d \<Rightarrow> spec_VehicleStatus_shape d)) \<and>
   (\<forall>v. as_VehicleData j = Some v \<longrightarrow>
      destructure j =
        Inr \<lparr> f_longitude = Some (JNumber (longitude (location (data v)))),
              f_latitude = Some (JNumber (latitude (location (data v)))),
              f_position_description = Some (JString (position_description (location (data v)))),
              f_speed = Some (JNumber (speed (data v))),
              f_ignition = Some (JBoolean (ignition (data v))),
              f_odometer = Some (JNumber (odometer (data v))) \<rparr>)"
proof (intro conjI allI impI)
  show "as_VehicleData j \<noteq> None \<longleftrightarrow>
      (case member j ''data'' of None \<Rightarrow> False | Some d \<Rightarrow> spec_VehicleStatus_shape d)"
  proof (cases "member j ''data''")
    case None
    then show ?thesis by (simp add: as_VehicleData_def as_Status_def)
  next
    case (Some d)
    then show ?thesis
      using as_Status_shape [of d] by (auto simp: as_VehicleData_def split: option.splits)
  qed
next
  fix v assume v: "as_VehicleData j = Some v"
  then obtain st where st: "as_Status (member j ''data'') = Some st" "v = \<lparr> data = st \<rparr>"
    by (auto simp: as_VehicleData_def split: option.splits)
  then obtain d where d: "member j ''data'' = Some d"
    by (cases "member j ''data''") (simp_all add: as_Status_def)
  then have rj: "read_member (Some j) ''data'' = Inr (Some d)"
    by (cases j) simp_all
  from st d obtain loc where loc: "as_Location (member d ''location'') = Some loc"
    "location st = loc" "as_number (member d ''speed'') = Some (speed st)"
    "as_boolean (member d ''ignition'') = Some (ignition st)"
    "as_number (member d ''odometer'') = Some (odometer st)"
    by (auto simp: as_Status_def split: option.splits)
  then obtain l where l: "member d ''location'' = Some l"
    by (cases "member d ''location''") (simp_all add: as_Location_def)
  then have rd: "\<And>k. read_member (Some d) k = Inr (member d k)"
    by (cases d) simp_all
  from loc(1) l have lf: "as_number (member l ''longitude'') = Some (longitude loc)"
    "as_number (member l ''latitude'') = Some (latitude loc)"
    "as_string (member l ''position_description'') = Some (position_description loc)"
    by (auto simp: as_Location_def split: option.splits)
  then have rl: "\<And>k. read_member (Some l) k = Inr (member l k)"
    by (cases l) simp_all
  have n: "\<And>x y. as_number x = Some y \<Longrightarrow> x = Some (JNumber y)"
    by (erule as_number.elims) simp_all
  have b: "\<And>x y. as_boolean x = Some y \<Longrightarrow> x = Some (JBoolean y)"
    by (erule as_boolean.elims) simp_all
  have g: "\<And>x y. as_string x = Some y \<Longrightarrow> x = Some (JString y)"
    by (erule as_string.elims) simp_all
  show "destructure j =
        Inr \<lparr> f_longitude = Some (JNumber (longitude (location (data v)))),
              f_latitude = Some (JNumber (latitude (location (data v)))),
              f_position_description = Some (JString (position_description (location (data v)))),
              f_speed = Some (JNumber (speed (data v))),
              f_ignition = Some (JBoolean (ignition (data v))),
              f_odometer = Some (JNumber (odometer (data v))) \<rparr>"
    using st(2) loc(2) n [OF lf(1)] n [OF lf(2)] g [OF lf(3)] n [OF loc(3)] b [OF loc(4)]
      n [OF loc(5)]
    by (simp add: destructure_def rj rd rl l)
qed

theorem VehicleData_shape_witness:
  "as_VehicleData body_json = Some example_data \<and>
   member body_json ''data'' = Some status_json \<and> spec_VehicleStatus_shape status_json \<and>
   destructure body_json =
     Inr \<lparr> f_longitude = Some (JNumber (37 / 2)), f_latitude = Some (JNumber (- (339 / 10))),
           f_position_description = Some (JString ''Home''), f_speed = Some (JNumber 0),
           f_ignition = Some (JBoolean False), f_odometer = Some (JNumber 12000) \<rparr>"
proof -
  have a: "as_VehicleData body_json = Some example_data"
    by (simp add: as_VehicleData_def as_Status_def as_Location_def body_json_def status_json_def
          example_data_def)
  have m: "member body_json ''data'' = Some status_json"
    by (simp add: body_json_def)
  from VehicleData_shape [of body_json] a m show ?thesis
    by (simp add: example_data_def)
qed

subsection \<open>Runs: the steps and the invariant of the view\<close>

lemma run_invariant:
  assumes "P s0" and "\<And>s e s'. P s \<Longrightarrow> step s e = Some s' \<Longrightarrow> P s'"
    and "run s0 evs = Some s"
  shows "P s"
  using assms(1,3)
proof (induction evs arbitrary: s0)
  case Nil
  then show ?case by simp
next
  case (Cons e es)
  then obtain s1 where s1: "step s0 e = Some s1" "run s1 es = Some s"
    by (auto split: option.splits)
  from assms(2) [OF Cons.prems(1) s1(1)] have "P s1" .
  from Cons.IH [OF this s1(2)] show ?case .
qed

lemma run_snoc:
  "run s0 (evs @ [e]) = Some s \<longleftrightarrow> (\<exists>s1. run s0 evs = Some s1 \<and> step s1 e = Some s)"
  by (induction evs arbitrary: s0) (auto split: option.splits)

lemma run_append:
  "run s0 (xs @ ys) = Some s \<longleftrightarrow> (\<exists>s1. run s0 xs = Some s1 \<and> run s1 ys = Some s)"
  by (induction xs arbitrary: s0) (auto split: option.splits)

lemma step_Mount:
  "step s (t, Mount) = Some s' \<longleftrightarrow> admissible s t \<and> phase s = Fresh \<and> s' = mount (s\<lparr>clock := t\<rparr>)"
  by (auto simp: step_def Let_def)

lemma step_Map_load:
  "step s (t, Map_load) = Some s' \<longleftrightarrow>
     admissible s t \<and> phase s = Live \<and>
     (\<exists>mp. map_ref s = Some mp \<and> load_listener mp \<and> \<not> loaded mp \<and>
           s' = on_load (s\<lparr>clock := t, map_ref := Some (mp\<lparr>loaded := True\<rparr>)\<rparr>))"
  by (auto simp: step_def Let_def split: option.splits)

lemma step_Tick:
  "step s (t, Tick) = Some s' \<longleftrightarrow>
     admissible s t \<and>
     (\<exists>p. interval s = Some (p, t) \<and> s' = on_interval (s\<lparr>clock := t, interval := Some (p, t + p)\<rparr>))"
  by (auto simp: step_def Let_def split: option.splits)

lemma step_Settle:
  "step s (t, Settle net) = Some s' \<longleftrightarrow>
     admissible s t \<and> pending s \<noteq> 0 \<and>
     s' = (if phase s = Live then settle net (s\<lparr>clock := t, pending := pending s - 1\<rparr>)
           else s\<lparr>clock := t, pending := pending s - 1\<rparr>)"
  by (auto simp: step_def Let_def)

lemma step_Unmount:
  "step s (t, Unmount) = Some s' \<longleftrightarrow> admissible s t \<and> phase s = Live \<and> s' = unmount (s\<lparr>clock := t\<rparr>)"
  by (auto simp: step_def Let_def)

lemmas step_event = step_Mount step_Map_load step_Tick step_Settle step_Unmount

lemma settle_failure:
  "try_block net = Inl e \<Longrightarrow> settle net s = s\<lparr>error := Some (catch_message e)\<rparr>"
  by (simp add: settle_def fetchVehicleData_def)

lemma settle_success:
  "try_block net = Inr d \<Longrightarrow> settle net s = marker_effect (s\<lparr>vehicleData := Some d, error := None\<rparr>)"
  by (simp add: settle_def fetchVehicleData_def)

lemma view_inv_init: "view_inv init"
  by (simp add: view_inv_def init_def)

lemma marker_effect_frame:
  "phase (marker_effect s) = phase s"
  "mapContainer (marker_effect s) = mapContainer s"
  "vehicleData (marker_effect s) = vehicleData s"
  "pending (marker_effect s) = pending s"
  "interval (marker_effect s) = interval s"
  "clock (marker_effect s) = clock s"
  "fetches (marker_effect s) = fetches s"
  "error (marker_effect s) = error s"
  "loading (marker_effect s) = loading s"
  "(map_ref (marker_effect s) = None) = (map_ref s = None)"
  "filter is_new_map (calls (marker_effect s)) = filter is_new_map (calls s)"
  "map_option options (map_ref (marker_effect s)) = map_option options (map_ref s)"
  "map_option controls (map_ref (marker_effect s)) = map_option controls (map_ref s)"
  by (simp_all add: marker_effect_def Let_def split: option.splits)

lemma marker_effect_idle:
  "map_ref s = None \<or> vehicleData s = None \<Longrightarrow> marker_effect s = s"
  by (auto simp: marker_effect_def split: option.splits)

lemma marker_effect_inv:
  assumes "map_ref s \<noteq> None" "vehicleData s \<noteq> None"
    "lastPosition s = map_option position_of (marker_ref s)"
    "length (filter is_fly (calls s)) = (if marker_ref s = None then 0 else 1)"
    "case marker_ref s of None \<Rightarrow> True | Some m \<Rightarrow> on_map m"
  shows "marker_ref (marker_effect s) \<noteq> None"
    and "case marker_ref (marker_effect s) of None \<Rightarrow> True | Some m \<Rightarrow> on_map m"
    and "lastPosition (marker_effect s) = map_option position_of (marker_ref (marker_effect s))"
    and "length (filter is_fly (calls (marker_effect s))) = 1"
  using assms
  by (auto simp: marker_effect_def Let_def position_of_def split: option.splits)

lemma view_inv_Mount:
  assumes "view_inv s" "phase s = Fresh"
  shows "view_inv (mount (s\<lparr>clock := t\<rparr>))"
proof -
  define s1 where "s1 = init_map_effect (s\<lparr>clock := t, phase := Live, mapContainer := True\<rparr>)"
  have v: "vehicleData s1 = None"
    using assms by (simp add: s1_def init_map_effect_def view_inv_def)
  then have m: "marker_effect s1 = s1" by (simp add: marker_effect_idle)
  have "mount (s\<lparr>clock := t\<rparr>) = poll_effect s1"
    by (simp add: mount_def s1_def m [unfolded s1_def])
  moreover have "view_inv (poll_effect s1)"
    using assms by (simp add: view_inv_def poll_effect_def s1_def init_map_effect_def)
  ultimately show ?thesis by simp
qed

lemma view_inv_settle:
  assumes "view_inv s" "phase s = Live"
  shows "view_inv (settle net (s\<lparr>clock := t, pending := n\<rparr>))"
proof (cases "try_block net")
  case (Inl e)
  with assms show ?thesis by (simp add: settle_failure view_inv_def)
next
  case (Inr d)
  define s1 where "s1 = s\<lparr>clock := t, pending := n, vehicleData := Some d, error := None\<rparr>"
  have pre: "map_ref s1 \<noteq> None" "vehicleData s1 \<noteq> None"
    "lastPosition s1 = map_option position_of (marker_ref s1)"
    "length (filter is_fly (calls s1)) = (if marker_ref s1 = None then 0 else 1)"
    "case marker_ref s1 of None \<Rightarrow> True | Some m \<Rightarrow> on_map m"
    using assms by (auto simp: view_inv_def s1_def)
  have more: "phase s1 = Live" "mapContainer s1"
    "filter is_new_map (calls s1) = [New_map map_config]"
    "map_option options (map_ref s1) = Some map_config"
    "map_option controls (map_ref s1) = Some [(''NavigationControl'', ''bottom-right'')]"
    using assms by (auto simp: view_inv_def s1_def)
  have "view_inv (marker_effect s1)"
    unfolding view_inv_def
    using marker_effect_inv [OF pre] more pre(1,2) by (auto simp add: marker_effect_frame)
  with Inr show ?thesis by (simp add: settle_success s1_def)
qed

lemma view_inv_step:
  assumes "view_inv s" and "step s e = Some s'"
  shows "view_inv s'"
proof (cases e)
  case (Pair t ev)
  show ?thesis
  proof (cases ev)
    case Mount
    with Pair assms show ?thesis by (auto simp: step_Mount view_inv_Mount)
  next
    case Map_load
    with Pair assms(2) obtain mp where "phase s = Live" "map_ref s = Some mp"
      "s' = on_load (s\<lparr>clock := t, map_ref := Some (mp\<lparr>loaded := True\<rparr>)\<rparr>)"
      by (auto simp: step_Map_load)
    with assms(1) show ?thesis
      by (simp add: view_inv_def on_load_def begin_fetch_def)
  next
    case Tick
    with Pair assms(2) obtain p where "interval s = Some (p, t)"
      "s' = on_interval (s\<lparr>clock := t, interval := Some (p, t + p)\<rparr>)"
      by (auto simp: step_Tick)
    with assms(1) have "phase s \<noteq> Fresh" by (auto simp: view_inv_def)
    with assms(1) \<open>s' = _\<close> show ?thesis
      by (simp add: view_inv_def on_interval_def begin_fetch_def)
  next
    case (Settle net)
    with Pair assms have "s' = (if phase s = Live then settle net (s\<lparr>clock := t, pending := pending s - 1\<rparr>)
           else s\<lparr>clock := t, pending := pending s - 1\<rparr>)" and "pending s \<noteq> 0"
      by (simp_all add: step_Settle)
    moreover have "phase s \<noteq> Live \<Longrightarrow> view_inv (s\<lparr>clock := t, pending := pending s - 1\<rparr>)"
      using assms(1) \<open>pending s \<noteq> 0\<close> by (auto simp: view_inv_def)
    ultimately show ?thesis using view_inv_settle [OF assms(1)] by simp
  next
    case Unmount
    with Pair assms(2) have u: "phase s = Live" "s' = unmount (s\<lparr>clock := t\<rparr>)"
      by (auto simp: step_Unmount)
    with assms(1) obtain mp where "map_ref s = Some mp" by (auto simp: view_inv_def)
    with assms(1) u show ?thesis
      by (simp add: view_inv_def unmount_def poll_cleanup_def init_map_cleanup_def)
  qed
qed

lemma view_inv_run: "run init evs = Some s \<Longrightarrow> view_inv s"
  using run_invariant [of view_inv init evs s] view_inv_init view_inv_step by blast

lemma step_phase:
  "step s (t, ev) = Some s' \<Longrightarrow>
     phase s' = (case ev of Mount \<Rightarrow> Live | Unmount \<Rightarrow> Gone | _ \<Rightarrow> phase s) \<and>
     (ev = Mount \<longrightarrow> phase s = Fresh) \<and> (ev = Unmount \<longrightarrow> phase s = Live)"
  by (cases ev)
     (auto simp: step_event mount_def unmount_def poll_effect_def poll_cleanup_def
        init_map_effect_def init_map_cleanup_def on_load_def on_interval_def begin_fetch_def
        settle_def fetchVehicleData_def marker_effect_frame split: option.splits sum.splits)

lemma step_vehicleData:
  "step s (t, ev) = Some s' \<Longrightarrow>
     vehicleData s' =
       (case ev of
          Settle net \<Rightarrow>
            (if phase s = Live
             then (case try_block net of Inr d \<Rightarrow> Some d | Inl e \<Rightarrow> vehicleData s)
             else vehicleData s)
        | _ \<Rightarrow> vehicleData s)"
  by (cases ev)
     (auto simp: step_event mount_def unmount_def poll_effect_def poll_cleanup_def
        init_map_effect_def init_map_cleanup_def on_load_def on_interval_def begin_fetch_def
        settle_def fetchVehicleData_def marker_effect_frame split: option.splits sum.splits)

lemma step_not_Fresh:
  assumes "view_inv s" "step s (t, ev) = Some s'" "ev \<noteq> Mount"
  shows "phase s \<noteq> Fresh"
proof
  assume f: "phase s = Fresh"
  with assms(1) have "map_ref s = None" "pending s = 0" "interval s = None"
    by (simp_all add: view_inv_def)
  with assms(2,3) f show False
    by (cases ev) (simp_all add: step_event)
qed

lemma applied_successes_snoc:
  "applied_successes (evs @ [e]) =
     (if Unmount \<in> snd ` set evs \<or> snd e = Unmount \<or> \<not> is_success e
      then applied_successes evs else Suc (applied_successes evs))"
proof (cases "Unmount \<in> snd ` set evs")
  case True
  then obtain x where "x \<in> set evs" "\<not> snd x \<noteq> Unmount" by force
  then have "takeWhile (\<lambda>te. snd te \<noteq> Unmount) (evs @ [e]) = takeWhile (\<lambda>te. snd te \<noteq> Unmount) evs"
    by (rule takeWhile_append1)
  with True show ?thesis by (simp add: applied_successes_def)
next
  case False
  then have all: "\<forall>x\<in>set evs. snd x \<noteq> Unmount" by force
  then have a: "takeWhile (\<lambda>te. snd te \<noteq> Unmount) (evs @ [e])
                  = evs @ takeWhile (\<lambda>te. snd te \<noteq> Unmount) [e]"
    by simp
  from all have b: "takeWhile (\<lambda>te. snd te \<noteq> Unmount) evs = evs" by simp
  show ?thesis unfolding applied_successes_def a b using False by simp
qed

lemma run_track:
  "run init evs = Some s \<Longrightarrow>
     (phase s = Gone \<longleftrightarrow> Unmount \<in> snd ` set evs) \<and>
     (phase s = Fresh \<longleftrightarrow> evs = []) \<and>
     (vehicleData s = None \<longleftrightarrow> applied_successes evs = 0)"
proof (induction evs arbitrary: s rule: rev_induct)
  case Nil
  then show ?case by (auto simp: init_def applied_successes_def)
next
  case (snoc e evs)
  then obtain s1 where s1: "run init evs = Some s1" "step s1 e = Some s"
    by (auto simp: run_snoc)
  obtain t ev where e: "e = (t, ev)" by (cases e)
  note ih = snoc.IH [OF s1(1)]
  note ph = step_phase [OF s1(2) [unfolded e]]
  note vd = step_vehicleData [OF s1(2) [unfolded e]]
  show ?case
  proof (cases ev)
    case (Settle net)
    then have nf: "phase s1 \<noteq> Fresh"
      using step_not_Fresh [OF view_inv_run [OF s1(1)] s1(2) [unfolded e]] by simp
    show ?thesis
    proof (cases "try_block net")
      case (Inl err)
      then have "failure_kind net \<noteq> None" by (simp add: failure_kind_None)
      with Inl Settle ih ph vd e nf show ?thesis
        by (simp add: applied_successes_snoc image_Un)
    next
      case (Inr d)
      then have "failure_kind net = None" by (auto simp: failure_kind_None)
      with Inr Settle ih ph vd e nf show ?thesis
        by (cases "phase s1") (simp_all add: applied_successes_snoc image_Un)
    qed
  next
    case Mount
    with ih ph vd e show ?thesis by (auto simp: applied_successes_def)
  next
    case Unmount
    with ih ph vd e show ?thesis by (auto simp: applied_successes_snoc image_Un)
  next
    case Map_load
    then have "phase s1 \<noteq> Fresh"
      using step_not_Fresh [OF view_inv_run [OF s1(1)] s1(2) [unfolded e]] by simp
    with Map_load ih ph vd e show ?thesis by (auto simp: applied_successes_snoc image_Un)
  next
    case Tick
    then have "phase s1 \<noteq> Fresh"
      using step_not_Fresh [OF view_inv_run [OF s1(1)] s1(2) [unfolded e]] by simp
    with Tick ih ph vd e show ?thesis by (auto simp: applied_successes_snoc image_Un)
  qed
qed

lemma positionChanged_iff:
  "positionChanged lp lo la \<longleftrightarrow> lp \<noteq> Some \<lparr> lng = lo, lat = la \<rparr>"
  by (cases lp) (auto simp: positionChanged_def)

lemma marker_effect_present:
  assumes "map_ref s \<noteq> None" "vehicleData s = Some d" "marker_ref s = Some mk"
  shows "marker_effect s =
     (if lastPosition s = Some \<lparr> lng = longitude (location (data d)), lat = latitude (location (data d)) \<rparr>
      then s
      else s\<lparr> marker_ref := Some (mk\<lparr>lnglat := (longitude (location (data d)), latitude (location (data d)))\<rparr>),
              lastPosition := Some \<lparr> lng = longitude (location (data d)), lat = latitude (location (data d)) \<rparr>,
              calls := calls s @ [Set_lng_lat (longitude (location (data d))) (latitude (location (data d)))] \<rparr>)"
  using assms by (auto simp: marker_effect_def Let_def positionChanged_iff)

subsection \<open>The scenario, evaluated\<close>

lemmas model_defs =
  step_def admissible_def mount_def unmount_def on_load_def on_interval_def begin_fetch_def
  settle_def fetchVehicleData_def marker_effect_def init_map_effect_def init_map_cleanup_def
  poll_effect_def poll_cleanup_def positionChanged_def ignition_color_def init_def
  abort_error_def

lemmas run_defs =
  whole_run_def first_fix_run_def same_place_event_def timeout_run_def moved_event_def
  teardown_run_def example_data_def engine_on_data_def moved_data_def

lemma whole_run_ok: "run init whole_run \<noteq> None"
  by (simp add: run_defs model_defs Let_def)

lemma first_fix_eval:
  "map_option (\<lambda>s. (lastPosition s, marker_ref s \<noteq> None)) (run init first_fix_run)
     = Some (Some \<lparr> lng = 37 / 2, lat = - (339 / 10) \<rparr>, True)"
  by (simp add: run_defs model_defs Let_def)

lemma before_move_eval:
  "map_option (\<lambda>s. (lastPosition s, phase s, marker_ref s \<noteq> None, calls s, error s))
     (run init (first_fix_run @ [same_place_event] @ timeout_run))
     = Some (Some \<lparr> lng = 37 / 2, lat = - (339 / 10) \<rparr>, Live, True,
             [New_map map_config, Add_control ''NavigationControl'' ''bottom-right'', On_load,
              Set_interval 15000, New_marker ''#EF4444'', Set_lng_lat (37 / 2) (- (339 / 10)),
              Set_popup \<lparr> popup_offset = 25, popup_speed = 0, popup_ignition = False,
                          popup_location = ''Home'' \<rparr>,
              Add_to, Fly_to (37 / 2) (- (339 / 10)) 14 2000],
             Some ''Request timeout - API is slow'')"
  by (simp add: run_defs model_defs Let_def)

subsection \<open>Poll scheduler\<close>

text \<open>
  C3. Polling is to start only after the first manual fetch, which the \<open>load\<close> listener
  makes (lines 95-99: the fetch waits for the map). The code does not keep this order when
  the map needs more than 15 s to load: the interval is set at mount (line 170) without
  that gate, so with the map ready at 16.2 s the first invocation of
  \<open>fetchVehicleData\<close>, at 15 s, is a poll; and when that poll is answered, the marker is
  created and the viewport animated while \<open>loading\<close> is still true and the map has not
  fired \<open>load\<close>.
\<close>

theorem polls_before_manual_fetch:
  "fetch_log slow_map_run = Some [(15000, Poll), (16200, Manual)] \<and>
   \<not> polls_after_manual [(15000, Poll), (16200, Manual)] \<and>
   view_summary early_poll_run = Some (True, Some False, True, 1)"
  by (simp add: fetch_log_def view_summary_def slow_map_run_def early_poll_run_def
        example_data_def model_defs Let_def)

subsection \<open>Marker presenter\<close>

text \<open>
  C5. In every run of a view, the number of \<open>flyTo\<close> calls is 0 as long as no successful
  fetch has reached the view and 1 from the first successful fetch on, however many
  follow and whatever positions they report; the marker exists from that same fetch on.
\<close>

theorem fly_to_once:
  "run init evs = Some s \<Longrightarrow>
     length (filter is_fly (calls s)) = min 1 (applied_successes evs) \<and>
     (marker_ref s = None \<longleftrightarrow> applied_successes evs = 0)"
proof -
  assume r: "run init evs = Some s"
  from view_inv_run [OF r]
  have "length (filter is_fly (calls s)) = (if vehicleData s = None then 0 else 1)"
    and "marker_ref s = None \<longleftrightarrow> vehicleData s = None"
    by (auto simp: view_inv_def)
  with run_track [OF r] show ?thesis by auto
qed

theorem fly_to_once_witness:
  "map_option (\<lambda>s. length (filter is_fly (calls s))) (run init whole_run) = Some 1 \<and>
   map_option (\<lambda>s. marker_ref s = None) (run init whole_run) = Some False \<and>
   applied_successes whole_run = 3"
proof -
  obtain s where s: "run init whole_run = Some s" using whole_run_ok by auto
  have n: "applied_successes whole_run = 3"
    by (simp add: applied_successes_def run_defs)
  from fly_to_once [OF s] n s show ?thesis by simp
qed

text \<open>
  C6. In every state a run reaches, a successful fetch whose coordinates equal
  \<open>lastPosition\<close> makes no call at all (so no \<open>setLngLat\<close>) and leaves
  \<open>lastPosition\<close>, the marker and the map as they were.
\<close>

theorem same_position_no_update:
  assumes "run init evs = Some s"
    and "step s (t, Settle net) = Some s'"
    and "try_block net = Inr d"
    and "lastPosition s = Some \<lparr> lng = longitude (location (data d)),
                                  lat = latitude (location (data d)) \<rparr>"
  shows "calls s' = calls s \<and> lastPosition s' = lastPosition s \<and>
         marker_ref s' = marker_ref s \<and> map_ref s' = map_ref s"
proof (cases "phase s = Live")
  case False
  with assms(2) show ?thesis by (simp add: step_Settle)
next
  case True
  define s1 where "s1 = s\<lparr>clock := t, pending := pending s - 1, vehicleData := Some d, error := None\<rparr>"
  from True assms(2,3) have s': "s' = marker_effect s1"
    by (simp add: step_Settle settle_success s1_def)
  from view_inv_run [OF assms(1)] True assms(4) obtain mk where
    "map_ref s1 \<noteq> None" "marker_ref s1 = Some mk"
    by (auto simp: view_inv_def s1_def)
  moreover have "vehicleData s1 = Some d" "lastPosition s1 = lastPosition s"
    by (simp_all add: s1_def)
  ultimately have "marker_effect s1 = s1"
    using assms(4) by (simp add: marker_effect_present)
  with s' show ?thesis by (simp add: s1_def)
qed

theorem same_position_no_update_witness:
  "\<exists>s s'. run init first_fix_run = Some s \<and> step s same_place_event = Some s' \<and>
          lastPosition s = Some \<lparr> lng = 37 / 2, lat = - (339 / 10) \<rparr> \<and>
          calls s' = calls s \<and> lastPosition s' = lastPosition s \<and>
          marker_ref s' = marker_ref s \<and> map_ref s' = map_ref s"
proof -
  from whole_run_ok obtain z where "run init whole_run = Some z" by auto
  then obtain s s' where s: "run init first_fix_run = Some s"
    and s': "step s same_place_event = Some s'"
    by (auto simp: whole_run_def run_append split: option.splits)
  from first_fix_eval s have lp: "lastPosition s = Some \<lparr> lng = 37 / 2, lat = - (339 / 10) \<rparr>"
    by simp
  have t: "try_block (Headers 120 True (Inr engine_on_data)) = Inr engine_on_data" by simp
  have "lastPosition s = Some \<lparr> lng = longitude (location (data engine_on_data)),
                                 lat = latitude (location (data engine_on_data)) \<rparr>"
    using lp by (simp add: engine_on_data_def)
  from same_position_no_update [OF s s' [unfolded same_place_event_def] t this] s s' lp
  show ?thesis by blast
qed

text \<open>
  C7. In every state of a live view that holds a marker, a successful fetch whose
  coordinates differ from \<open>lastPosition\<close> makes exactly one call, \<open>setLngLat\<close> with the
  new coordinates; the marker differs from the previous one in its coordinates only (same
  popup, same colour), \<open>lastPosition\<close> becomes the new coordinates and the map, viewport
  included, is unchanged.
\<close>

theorem changed_position_one_update:
  assumes "run init evs = Some s"
    and "phase s = Live"
    and "marker_ref s = Some mk"
    and "step s (t, Settle net) = Some s'"
    and "try_block net = Inr d"
    and "lastPosition s \<noteq> Some \<lparr> lng = longitude (location (data d)),
                                     lat = latitude (location (data d)) \<rparr>"
  shows "calls s' = calls s @ [Set_lng_lat (longitude (location (data d)))
                                           (latitude (location (data d)))] \<and>
         marker_ref s' = Some (mk\<lparr>lnglat := (longitude (location (data d)),
                                                   latitude (location (data d)))\<rparr>) \<and>
         map_option marker_popup (marker_ref s') = Some (marker_popup mk) \<and>
         map_option element_color (marker_ref s') = Some (element_color mk) \<and>
         lastPosition s' = Some \<lparr> lng = longitude (location (data d)),
                                   lat = latitude (location (data d)) \<rparr> \<and>
         map_ref s' = map_ref s"
proof -
  define s1 where "s1 = s\<lparr>clock := t, pending := pending s - 1, vehicleData := Some d, error := None\<rparr>"
  from assms(2,4,5) have s': "s' = marker_effect s1"
    by (simp add: step_Settle settle_success s1_def)
  from view_inv_run [OF assms(1)] assms(2) have "map_ref s1 \<noteq> None"
    by (auto simp: view_inv_def s1_def)
  moreover have "vehicleData s1 = Some d" "marker_ref s1 = Some mk"
    "lastPosition s1 = lastPosition s"
    using assms(3) by (simp_all add: s1_def)
  ultimately show ?thesis
    unfolding s' using assms(6) by (simp add: marker_effect_present) (simp add: s1_def)
qed

theorem changed_position_one_update_witness:
  "\<exists>s s' mk. run init (first_fix_run @ [same_place_event] @ timeout_run) = Some s \<and>
          step s moved_event = Some s' \<and> marker_ref s = Some mk \<and>
          calls s' = calls s @ [Set_lng_lat (186 / 10) (- (338 / 10))] \<and>
          marker_ref s' = Some (mk\<lparr>lnglat := (186 / 10, - (338 / 10))\<rparr>) \<and>
          lastPosition s' = Some \<lparr> lng = 186 / 10, lat = - (338 / 10) \<rparr> \<and>
          map_ref s' = map_ref s"
proof -
  from whole_run_ok obtain z where "run init whole_run = Some z" by auto
  then obtain s s' where s: "run init (first_fix_run @ [same_place_event] @ timeout_run) = Some s"
    and s': "step s moved_event = Some s'"
    by (auto simp: whole_run_def run_append split: option.splits)
  from before_move_eval s have ev: "lastPosition s = Some \<lparr> lng = 37 / 2, lat = - (339 / 10) \<rparr>"
    "phase s = Live" "marker_ref s \<noteq> None"
    by simp_all
  then obtain mk where mk: "marker_ref s = Some mk" by auto
  have t: "try_block (Headers 100 True (Inr moved_data)) = Inr moved_data" by simp
  have "lastPosition s \<noteq> Some \<lparr> lng = longitude (location (data moved_data)),
                                    lat = latitude (location (data moved_data)) \<rparr>"
    using ev(1) by (simp add: moved_data_def)
  from changed_position_one_update [OF s ev(2) mk s' [unfolded moved_event_def] t this] s s' mk
  show ?thesis by (simp add: moved_data_def)
qed

lemma marker_effect_same_marker:
  "same_marker m s \<Longrightarrow> same_marker m (marker_effect s)"
  by (auto simp: same_marker_def marker_effect_def Let_def split: option.splits)

lemma same_marker_step:
  assumes "same_marker m s" "step s e = Some s'"
  shows "same_marker m s'"
proof (cases e)
  case (Pair t ev)
  show ?thesis
  proof (cases ev)
    case Mount
    have "same_marker m (init_map_effect (s\<lparr>clock := t, phase := Live, mapContainer := True\<rparr>))"
      using assms(1) by (simp add: same_marker_def init_map_effect_def)
    then have "same_marker m (mount (s\<lparr>clock := t\<rparr>))"
      unfolding mount_def
      using marker_effect_same_marker
      by (simp add: same_marker_def poll_effect_def)
    with Mount Pair assms(2) show ?thesis by (simp add: step_Mount)
  next
    case Map_load
    with Pair assms show ?thesis
      by (auto simp: step_Map_load same_marker_def on_load_def begin_fetch_def)
  next
    case Tick
    with Pair assms show ?thesis
      by (auto simp: step_Tick same_marker_def on_interval_def begin_fetch_def)
  next
    case (Settle net)
    have a: "same_marker m (s\<lparr>clock := t, pending := pending s - 1\<rparr>)"
      using assms(1) by (simp add: same_marker_def)
    have "same_marker m (settle net (s\<lparr>clock := t, pending := pending s - 1\<rparr>))"
    proof (cases "try_block net")
      case (Inl err)
      with a show ?thesis by (simp add: settle_failure same_marker_def)
    next
      case (Inr d)
      have "same_marker m (s\<lparr>clock := t, pending := pending s - 1, vehicleData := Some d, error := None\<rparr>)"
        using assms(1) by (simp add: same_marker_def)
      then show ?thesis
        using Inr marker_effect_same_marker by (simp add: settle_success)
    qed
    with a Settle Pair assms(2) show ?thesis by (simp add: step_Settle)
  next
    case Unmount
    with Pair assms show ?thesis
      by (auto simp: step_Unmount same_marker_def unmount_def poll_cleanup_def
            init_map_cleanup_def split: option.splits)
  qed
qed

text \<open>
  C8. Once a run has reached a state with a marker, every continuation of the run, up to
  and beyond teardown, ends in a state with a marker that is on the map and has the same
  popup and colour: nothing removes it.
\<close>

theorem marker_permanent:
  assumes "run init evs = Some s" and "marker_ref s = Some m" and "run s evs' = Some s'"
  shows "\<exists>m'. marker_ref s' = Some m' \<and> on_map m' \<and> marker_popup m' = marker_popup m \<and>
              element_color m' = element_color m"
proof -
  from view_inv_run [OF assms(1)] assms(2) have on: "on_map m"
    by (simp add: view_inv_def)
  from assms(2) have "same_marker m s" by (simp add: same_marker_def)
  then have "same_marker m s'"
    using run_invariant [of "same_marker m" s evs' s'] same_marker_step assms(3) by blast
  with on show ?thesis by (auto simp: same_marker_def split: option.splits)
qed

theorem marker_permanent_witness:
  "\<exists>s m s' m'. run init first_fix_run = Some s \<and> marker_ref s = Some m \<and>
          run s ([same_place_event] @ timeout_run @ [moved_event] @ teardown_run) = Some s' \<and>
          marker_ref s' = Some m' \<and> on_map m' \<and> marker_popup m' = marker_popup m \<and>
          element_color m' = element_color m"
proof -
  from whole_run_ok obtain z where "run init whole_run = Some z" by auto
  then obtain s where s: "run init first_fix_run = Some s"
    and z: "run s ([same_place_event] @ timeout_run @ [moved_event] @ teardown_run) = Some z"
    unfolding whole_run_def run_append by blast
  from first_fix_eval s obtain m where m: "marker_ref s = Some m" by auto
  from marker_permanent [OF s m z] s m z show ?thesis by blast
qed

text \<open>
  C10. In every state a run reaches, when a marker exists \<open>lastPosition\<close> is not null and
  holds the marker's coordinates, so \<open>positionChanged\<close> is true exactly when the incoming
  coordinates differ from the marker's.
\<close>

theorem last_position_tracks_marker:
  assumes "run init evs = Some s" and "marker_ref s = Some m"
  shows "lastPosition s = Some \<lparr> lng = fst (lnglat m), lat = snd (lnglat m) \<rparr> \<and>
         (\<forall>lo la. positionChanged (lastPosition s) lo la \<longleftrightarrow> lnglat m \<noteq> (lo, la))"
proof -
  from view_inv_run [OF assms(1)] assms(2)
  have "lastPosition s = Some \<lparr> lng = fst (lnglat m), lat = snd (lnglat m) \<rparr>"
    by (simp add: view_inv_def position_of_def)
  then show ?thesis by (auto simp: positionChanged_iff)
qed

theorem last_position_tracks_marker_witness:
  "\<exists>s m. run init whole_run = Some s \<and> marker_ref s = Some m \<and>
          lastPosition s = Some \<lparr> lng = fst (lnglat m), lat = snd (lnglat m) \<rparr> \<and>
          lnglat m = (186 / 10, - (338 / 10))"
proof -
  have "map_option (\<lambda>s. map_option lnglat (marker_ref s)) (run init whole_run)
          = Some (Some (186 / 10, - (338 / 10)))"
    by (simp add: run_defs model_defs Let_def)
  then obtain s m where s: "run init whole_run = Some s" and m: "marker_ref s = Some m"
    and l: "lnglat m = (186 / 10, - (338 / 10))"
    by auto
  from last_position_tracks_marker [OF s m] s m l show ?thesis by blast
qed

subsection \<open>Map surface\<close>

text \<open>
  C9. In every run, from the mount on, \<open>new maplibregl.Map\<close> was called exactly once,
  with \<open>map_config\<close>, and running the map effect again changes nothing (it sees the map
  it holds). The configuration has one source, a raster source with one tile URL, the
  centre (18.50841, -33.827274), zoom range 2 to 19 and initial zoom 12; the map carries the
  navigation control at \<open>bottom-right\<close>.
\<close>

theorem map_initialised_once:
  assumes "run init evs = Some s" and "evs \<noteq> []"
  shows "filter is_new_map (calls s) = [New_map map_config] \<and>
         init_map_effect s = s \<and>
         map_option options (map_ref s) = Some map_config \<and>
         map_option controls (map_ref s) = Some [(''NavigationControl'', ''bottom-right'')] \<and>
         map (\<lambda>src. (source_type (snd src), length (tiles (snd src)))) (sources (style map_config))
           = [(''raster'', 1)] \<and>
         center map_config = (1850841 / 100000, - (33827274 / 1000000)) \<and>
         minZoom map_config = 2 \<and> maxZoom map_config = 19 \<and> zoom map_config = 12"
proof -
  from run_track [OF assms(1)] assms(2) have "phase s \<noteq> Fresh" by simp
  with view_inv_run [OF assms(1)] show ?thesis
    by (auto simp: view_inv_def init_map_effect_def map_config_def osm_tiles_def
          split: option.splits)
qed

theorem map_initialised_once_witness:
  "map_option (\<lambda>s. filter is_new_map (calls s)) (run init whole_run) = Some [New_map map_config] \<and>
   map_option (\<lambda>s. init_map_effect s = s) (run init whole_run) = Some True \<and>
   minZoom map_config = 2 \<and> maxZoom map_config = 19 \<and> zoom map_config = 12"
proof -
  obtain s where s: "run init whole_run = Some s" using whole_run_ok by auto
  have "whole_run \<noteq> []" by (simp add: whole_run_def first_fix_run_def)
  from map_initialised_once [OF s this] s show ?thesis by simp
qed

end
